theory Spec2Isabelle
  imports
    Complex_Main
    "HOL-Library.Sublist"
    "HOL-Library.Char_ord"
    "HOL-Library.List_Lexorder"
    "HOL-Library.AList"
    "HOL-Library.Multiset"
begin

section \<open>Text: Python strings and the regular expressions the services use\<close>


definition is_space :: "char \<Rightarrow> bool" where
  "is_space c =
     (c \<in> set [CHR 0x09, CHR 0x0A, CHR 0x0B, CHR 0x0C, CHR 0x0D,
                CHR 0x1C, CHR 0x1D, CHR 0x1E, CHR 0x1F, CHR 0x20])"

definition is_upper :: "char \<Rightarrow> bool" where
  "is_upper c = (CHR ''A'' \<le> c \<and> c \<le> CHR ''Z'')"

definition is_lower :: "char \<Rightarrow> bool" where
  "is_lower c = (CHR ''a'' \<le> c \<and> c \<le> CHR ''z'')"

definition is_digit :: "char \<Rightarrow> bool" where
  "is_digit c = (CHR ''0'' \<le> c \<and> c \<le> CHR ''9'')"

definition is_word :: "char \<Rightarrow> bool" where
  "is_word c = (is_lower c \<or> is_upper c \<or> is_digit c \<or> c = CHR ''_'')"

definition lower_char :: "char \<Rightarrow> char" where
  "lower_char c =
     (case map_of (zip ''ABCDEFGHIJKLMNOPQRSTUVWXYZ'' ''abcdefghijklmnopqrstuvwxyz'') c of
        None \<Rightarrow> c
      | Some l \<Rightarrow> l)"

definition lower :: "string \<Rightarrow> string" where
  "lower s = map lower_char s"

definition lstrip :: "string \<Rightarrow> string" where
  "lstrip s = dropWhile is_space s"

definition rstrip :: "string \<Rightarrow> string" where
  "rstrip s = rev (dropWhile is_space (rev s))"

definition strip :: "string \<Rightarrow> string" where
  "strip s = rstrip (lstrip s)"

text \<open>\<^verbatim>\<open>sub in s\<close>: the substring test.\<close>

fun str_in :: "string \<Rightarrow> string \<Rightarrow> bool" where
  "str_in sub [] = (sub = [])"
| "str_in sub (c # cs) = (prefix sub (c # cs) \<or> str_in sub cs)"

text \<open>\<^verbatim>\<open>s.split('.')[0]\<close>: the text before the first dot.\<close>

definition before_dot :: "string \<Rightarrow> string" where
  "before_dot s = takeWhile (\<lambda>c. c \<noteq> CHR ''.'') s"

subsection \<open>A backtracking matcher\<close>

text \<open>
  The patterns of the services are built from literal text, character classes, greedy
  \<^verbatim>\<open>*\<close> and \<^verbatim>\<open>+\<close> over one character class, sequence, alternation, one capture group and
  the anchors \<^verbatim>\<open>^\<close> and \<^verbatim>\<open>$\<close>. A matching state holds the text before the position
  (reversed), the text of the capture group, and the text still to read. \<open>rmatch\<close> returns
  the states a pattern can end in, in the order a backtracking matcher tries them, so the
  head of the list is the match Python's \<^verbatim>\<open>re\<close> reports.
\<close>

datatype regex =
    Str string
  | Cls "char \<Rightarrow> bool"
  | Star "char \<Rightarrow> bool"
  | Plus "char \<Rightarrow> bool"
  | Seq regex regex
  | Alt regex regex
  | Grp regex
  | Caret
  | Dollar

record mstate =
  pre :: string
  grp :: "string option"
  rest :: string

definition adv :: "nat \<Rightarrow> mstate \<Rightarrow> mstate" where
  "adv n st = st\<lparr>pre := rev (take n (rest st)) @ pre st, rest := drop n (rest st)\<rparr>"

text \<open>
  \<^verbatim>\<open>^\<close> matches at the start of the text and, under \<^verbatim>\<open>re.MULTILINE\<close>, after every
  newline. \<^verbatim>\<open>$\<close> matches at the end of the text and just before a newline that ends the
  text; under \<^verbatim>\<open>re.MULTILINE\<close>, before every newline.
\<close>

definition at_caret :: "bool \<Rightarrow> mstate \<Rightarrow> bool" where
  "at_caret ml st = (case pre st of [] \<Rightarrow> True | c # _ \<Rightarrow> ml \<and> c = CHR 0x0A)"

definition at_dollar :: "bool \<Rightarrow> mstate \<Rightarrow> bool" where
  "at_dollar ml st =
     (case rest st of [] \<Rightarrow> True | c # cs \<Rightarrow> c = CHR 0x0A \<and> (ml \<or> cs = []))"

text \<open>A greedy repetition takes the longest run first and gives back one character at a time.\<close>

definition greedy :: "nat \<Rightarrow> (char \<Rightarrow> bool) \<Rightarrow> mstate \<Rightarrow> mstate list" where
  "greedy lo p st =
     map (\<lambda>k. adv k st) (rev [lo ..< Suc (length (takeWhile p (rest st)))])"

primrec rmatch :: "bool \<Rightarrow> regex \<Rightarrow> mstate \<Rightarrow> mstate list" where
  "rmatch ml (Str w) = (\<lambda>st. if prefix w (rest st) then [adv (length w) st] else [])"
| "rmatch ml (Cls p) =
     (\<lambda>st. case rest st of [] \<Rightarrow> [] | c # _ \<Rightarrow> if p c then [adv 1 st] else [])"
| "rmatch ml (Star p) = greedy 0 p"
| "rmatch ml (Plus p) = greedy 1 p"
| "rmatch ml (Seq a b) = (\<lambda>st. concat (map (rmatch ml b) (rmatch ml a st)))"
| "rmatch ml (Alt a b) = (\<lambda>st. rmatch ml a st @ rmatch ml b st)"
| "rmatch ml (Grp a) =
     (\<lambda>st. map (\<lambda>st'. st'\<lparr>grp := Some (take (length (rest st) - length (rest st')) (rest st))\<rparr>)
               (rmatch ml a st))"
| "rmatch ml Caret = (\<lambda>st. if at_caret ml st then [st] else [])"
| "rmatch ml Dollar = (\<lambda>st. if at_dollar ml st then [st] else [])"

fun seqs :: "regex list \<Rightarrow> regex" where
  "seqs [] = Str []"
| "seqs [r] = r"
| "seqs (r # rs) = Seq r (seqs rs)"

text \<open>
  \<^verbatim>\<open>re.search\<close>: the first position, scanning from the left, at which the pattern matches.
  The result is the text before the match (reversed) and the state the match ends in.
\<close>

fun search_from :: "bool \<Rightarrow> regex \<Rightarrow> string \<Rightarrow> string \<Rightarrow> (string \<times> mstate) option" where
  "search_from ml r b [] =
     (case rmatch ml r \<lparr>pre = b, grp = None, rest = []\<rparr> of
        [] \<Rightarrow> None
      | st # _ \<Rightarrow> Some (b, st))"
| "search_from ml r b (c # cs) =
     (case rmatch ml r \<lparr>pre = b, grp = None, rest = c # cs\<rparr> of
        [] \<Rightarrow> search_from ml r (c # b) cs
      | st # _ \<Rightarrow> Some (b, st))"

definition re_search :: "bool \<Rightarrow> regex \<Rightarrow> string \<Rightarrow> mstate option" where
  "re_search ml r s = map_option snd (search_from ml r [] s)"

text \<open>\<^verbatim>\<open>re.match\<close>: a match at the start of the text only.\<close>

definition re_match :: "bool \<Rightarrow> regex \<Rightarrow> string \<Rightarrow> mstate option" where
  "re_match ml r s =
     (case rmatch ml r \<lparr>pre = [], grp = None, rest = s\<rparr> of [] \<Rightarrow> None | st # _ \<Rightarrow> Some st)"

text \<open>
  \<^verbatim>\<open>re.findall\<close> with one group and \<^verbatim>\<open>re.sub\<close> with the empty replacement: the matches
  from left to right, each search starting where the last match ended. Every pattern they
  are used with consumes text whenever it matches, so the scan always moves on.
\<close>

function findall_from :: "bool \<Rightarrow> regex \<Rightarrow> string \<Rightarrow> string \<Rightarrow> string list" where
  "findall_from ml r b s =
     (case search_from ml r b s of
        None \<Rightarrow> []
      | Some (_, st) \<Rightarrow>
          (case grp st of None \<Rightarrow> [] | Some g \<Rightarrow> [g]) @
          (if length (rest st) < length s then findall_from ml r (pre st) (rest st) else []))"
  by pat_completeness auto
termination
  by (relation "measure (\<lambda>(ml, r, b, s). length s)") auto

definition re_findall :: "bool \<Rightarrow> regex \<Rightarrow> string \<Rightarrow> string list" where
  "re_findall ml r s = findall_from ml r [] s"

function sub_from :: "bool \<Rightarrow> regex \<Rightarrow> string \<Rightarrow> string \<Rightarrow> string" where
  "sub_from ml r b s =
     (case search_from ml r b s of
        None \<Rightarrow> s
      | Some (b', st) \<Rightarrow>
          take (length b' - length b) s @
          (if length (rest st) < length s then sub_from ml r (pre st) (rest st) else rest st))"
  by pat_completeness auto
termination
  by (relation "measure (\<lambda>(ml, r, b, s). length s)") auto

definition re_sub_empty :: "bool \<Rightarrow> regex \<Rightarrow> string \<Rightarrow> string" where
  "re_sub_empty ml r s = sub_from ml r [] s"

declare findall_from.simps [simp del] sub_from.simps [simp del]

section \<open>Validation service\<close>

text \<open>
  The exceptions, each with its message. The message of an \<^verbatim>\<open>OverflowError\<close> of
  \<^verbatim>\<open>datetime\<close> differs between the C and the Python implementation of the module and is
  read by nothing here; it is left out.
\<close>

datatype py_error =
    ValueError string
  | TypeError string
  | OSError string
  | OverflowError

definition DANGEROUS_IMPORTS :: "string list" where
  "DANGEROUS_IMPORTS =
     [''os'', ''sys'', ''subprocess'', ''importlib'', ''exec'', ''eval'',
      ''open'', ''file'', ''__import__'', ''globals'', ''locals'',
      ''compile'', ''execfile'', ''input'', ''raw_input'']"

definition DANGEROUS_KEYWORDS :: "string list" where
  "DANGEROUS_KEYWORDS =
     [''exec('', ''eval('', ''compile('', ''__import__('',
      ''globals('', ''locals('', ''vars('', ''dir('',
      ''getattr('', ''setattr('', ''delattr('', ''hasattr('',
      ''input('', ''raw_input('']"

subsection \<open>\<^verbatim>\<open>validate_filename\<close>\<close>

text \<open>The pattern \<^verbatim>\<open>\.[^.]*$\<close> of the extension and \<^verbatim>\<open>^[a-zA-Z0-9_-]+$\<close> of a safe name.\<close>

definition extension_pattern :: regex where
  "extension_pattern = seqs [Str ''.'', Star (\<lambda>c. c \<noteq> CHR ''.''), Dollar]"

definition is_safe_char :: "char \<Rightarrow> bool" where
  "is_safe_char c = (is_lower c \<or> is_upper c \<or> is_digit c \<or> c = CHR ''_'' \<or> c = CHR ''-'')"

definition safe_name_pattern :: regex where
  "safe_name_pattern = seqs [Caret, Plus is_safe_char, Dollar]"

definition reserved_names :: "string list" where
  "reserved_names =
     [''con'', ''prn'', ''aux'', ''nul'',
      ''com1'', ''com2'', ''com3'', ''com4'', ''com5'', ''com6'', ''com7'', ''com8'', ''com9'',
      ''lpt1'', ''lpt2'', ''lpt3'', ''lpt4'', ''lpt5'', ''lpt6'', ''lpt7'', ''lpt8'', ''lpt9'']"

definition validate_filename :: "string \<Rightarrow> py_error + string" where
  "validate_filename filename0 =
     (if filename0 = [] then Inl (ValueError ''Filename cannot be empty'')
      else
        let filename = re_sub_empty False extension_pattern (strip filename0) in
        if length filename < 1 then Inl (ValueError ''Filename must have content'')
        else if length filename > 50
          then Inl (ValueError ''Filename must be no more than 50 characters'')
        else if re_match False safe_name_pattern filename = None
          then Inl (ValueError
                 ''Filename can only contain letters, numbers, underscores, and hyphens'')
        else if lower filename \<in> set reserved_names
          then Inl (ValueError
                 (''Filename '' @ [CHR 0x27] @ filename @ [CHR 0x27] @
                  '' is reserved and cannot be used''))
        else if prefix ''-'' filename \<or> prefix ''_'' filename
          then Inr (''file_'' @ filename)
        else Inr filename)"

subsection \<open>\<^verbatim>\<open>validate_code\<close>\<close>

text \<open>
  \<^verbatim>\<open>(?:^|\n)\s*(?:import|from)\s+([^\s\n]+)\<close>, used with \<^verbatim>\<open>re.MULTILINE\<close>; the file
  patterns \<^verbatim>\<open>open\s*\(\<close>, \<^verbatim>\<open>file\s*\(\<close>, \<^verbatim>\<open>\.write\s*\(\<close>, \<^verbatim>\<open>\.read\s*\(\<close>,
  \<^verbatim>\<open>\.readlines\s*\(\<close>; the network words, which are looked up as plain substrings.
\<close>

definition import_pattern :: regex where
  "import_pattern =
     seqs [Alt Caret (Str [CHR 0x0A]), Star is_space, Alt (Str ''import'') (Str ''from''),
           Plus is_space, Grp (Plus (\<lambda>c. \<not> is_space c \<and> c \<noteq> CHR 0x0A))]"

definition call_pattern :: "string \<Rightarrow> regex" where
  "call_pattern name = seqs [Str name, Star is_space, Str ''('']"

definition file_patterns :: "regex list" where
  "file_patterns =
     [call_pattern ''open'', call_pattern ''file'', call_pattern ''.write'',
      call_pattern ''.read'', call_pattern ''.readlines'']"

definition network_patterns :: "string list" where
  "network_patterns = [''urllib'', ''requests'', ''http'', ''socket'', ''urllib2'']"

definition dangerous_import :: "string \<Rightarrow> bool" where
  "dangerous_import imp = (strip (before_dot imp) \<in> set DANGEROUS_IMPORTS)"

text \<open>
  \<^verbatim>\<open>DANGEROUS_KEYWORDS\<close> is a Python set, iterated in no specified order; the keywords
  are taken here in the order of the source text, which decides nothing but the keyword
  named in the message when the code holds several.
\<close>

definition validate_code :: "string \<Rightarrow> py_error + string" where
  "validate_code code0 =
     (if code0 = [] then Inl (ValueError ''Code cannot be empty'')
      else
        let code = strip code0 in
        if length code < 10 then Inl (ValueError ''Code is too short to be valid'')
        else if length code > 5000
          then Inl (ValueError ''Code exceeds maximum length of 5000 characters'')
        else
          let code_lower = lower code in
          case find dangerous_import (re_findall True import_pattern code_lower) of
            Some imp \<Rightarrow> Inl (ValueError (''Dangerous import detected: '' @ imp))
          | None \<Rightarrow>
              (case find (\<lambda>keyword. str_in keyword code_lower) DANGEROUS_KEYWORDS of
                 Some keyword \<Rightarrow>
                   Inl (ValueError (''Dangerous function detected: '' @ butlast keyword))
               | None \<Rightarrow>
                   if list_ex (\<lambda>pattern. re_search False pattern code_lower \<noteq> None)
                        file_patterns
                     then Inl (ValueError
                            ''File operations are not allowed in animation code'')
                   else if list_ex (\<lambda>pattern. str_in pattern code_lower) network_patterns
                     then Inl (ValueError
                            ''Network operations are not allowed in animation code'')
                   else if \<not> str_in ''from manim import'' code_lower
                           \<and> \<not> str_in ''import manim'' code_lower
                     then Inl (ValueError ''Code must import manim'')
                   else if \<not> str_in ''class '' code_lower
                     then Inl (ValueError ''Code must define a Scene class'')
                   else if \<not> str_in ''def construct'' code_lower
                     then Inl (ValueError ''Code must have a construct method'')
                   else Inr code))"

subsection \<open>\<^verbatim>\<open>check_rate_limit\<close>\<close>





section \<open>Job store\<close>

datatype status = Queued | Rendering | Ready | Error

text \<open>
  \<^verbatim>\<open>created_at\<close> and \<^verbatim>\<open>updated_at\<close> hold the ISO-8601 text of a UTC instant, written by
  \<^verbatim>\<open>datetime.utcnow().isoformat()\<close> and read back by \<^verbatim>\<open>datetime.fromisoformat\<close>. They
  are modelled by the instant itself, in microseconds: the text of such instants is ordered
  as the instants are, and reading it back gives the instant.
\<close>

record job =
  job_id :: string
  status :: status
  filename :: string
  code :: string
  created_at :: int
  updated_at :: int
  video_path :: "string option"
  error_message :: "string option"

text \<open>A history entry: the job's fields, \<^verbatim>\<open>completed_at\<close> and \<^verbatim>\<open>total_processing_time\<close>.\<close>

record history_record =
  h_job :: job
  h_completed_at :: "int option"
  h_total_processing_time :: "int option"

datatype log_event =
    Job_added string
  | Job_status string status status
  | Job_removed string
  | Jobs_cleaned nat
  | Job_created string string
  | Job_not_found string
  | Job_starting string
  | Code_saved string
  | Code_save_failed string
  | Manim_command "string list"
  | Manim_successful string
  | Manim_failed_code int
  | Manim_timed_out nat
  | Manim_exception string
  | Job_completed string
  | Job_failed string
  | Code_cleaned string
  | Code_cleanup_failed string
  | Job_processing_error string string

text \<open>
  The state of the process: the job store (\<^verbatim>\<open>_jobs\<close>, a dictionary in insertion order,
  \<^verbatim>\<open>_job_history\<close> and whether a metrics cache is held), the files of the storage
  directories, and the lines written to the log.
\<close>

record state =
  jobs :: "(string \<times> job) list"
  job_history :: "history_record list"
  metrics_cached :: bool
  files :: "string set"
  log_lines :: "log_event list"

definition write_log :: "log_event \<Rightarrow> state \<Rightarrow> state" where
  "write_log e st = st\<lparr>log_lines := log_lines st @ [e]\<rparr>"

definition invalidate_metrics_cache :: "state \<Rightarrow> state" where
  "invalidate_metrics_cache st = st\<lparr>metrics_cached := False\<rparr>"

definition add_job :: "state \<Rightarrow> job \<Rightarrow> state" where
  "add_job st j =
     write_log (Job_added (job_id j))
       (invalidate_metrics_cache (st\<lparr>jobs := AList.update (job_id j) j (jobs st)\<rparr>))"

definition get_job :: "state \<Rightarrow> string \<Rightarrow> job option" where
  "get_job st jid = map_of (jobs st) jid"

definition get_jobs_by_status :: "state \<Rightarrow> status \<Rightarrow> job list" where
  "get_jobs_by_status st s = filter (\<lambda>j. status j = s) (map snd (jobs st))"

definition get_active_jobs :: "state \<Rightarrow> job list" where
  "get_active_jobs st = filter (\<lambda>j. status j \<in> {Queued, Rendering}) (map snd (jobs st))"

definition remove_job :: "state \<Rightarrow> string \<Rightarrow> state \<times> bool" where
  "remove_job st jid =
     (if jid \<in> fst ` set (jobs st)
      then (invalidate_metrics_cache
              (write_log (Job_removed jid) (st\<lparr>jobs := AList.delete jid (jobs st)\<rparr>)), True)
      else (st, False))"

text \<open>
  \<^verbatim>\<open>dataclasses.asdict\<close> raises \<^verbatim>\<open>TypeError\<close> on an object that is not a dataclass instance.
  \<^verbatim>\<open>JobStore\<close> is a pydantic \<^verbatim>\<open>BaseModel\<close>, not a dataclass, so the call in \<^verbatim>\<open>_archive_job\<close>
  raises on every job it is given.
\<close>

definition asdict :: "job \<Rightarrow> py_error + history_record" where
  "asdict j = Inl (TypeError ''asdict() should be called on dataclass instances'')"

definition archive_job :: "int \<Rightarrow> state \<Rightarrow> job \<Rightarrow> py_error + state" where
  "archive_job now st j =
     (case asdict j of
        Inl e \<Rightarrow> Inl e
      | Inr job_data \<Rightarrow>
          let job_data = job_data\<lparr>h_completed_at := Some now,
                                  h_total_processing_time := Some (now - created_at j)\<rparr>;
              history = job_history st @ [job_data]
          in Inr (st\<lparr>job_history :=
                       (if length history > 1000 then drop (length history - 1000) history
                        else history)\<rparr>))"

text \<open>
  The keyword arguments of \<^verbatim>\<open>update_job\<close>, in the order given. The fields are set on the
  job held in the dictionary before anything else happens, so they stay set when
  \<^verbatim>\<open>_archive_job\<close> raises: the result is the state left behind and either the exception or
  the value returned.
\<close>

datatype field_update =
    Set_status status
  | Set_video_path string
  | Set_error_message string

fun setattr :: "field_update \<Rightarrow> job \<Rightarrow> job" where
  "setattr (Set_status s) j = j\<lparr>status := s\<rparr>"
| "setattr (Set_video_path p) j = j\<lparr>video_path := Some p\<rparr>"
| "setattr (Set_error_message m) j = j\<lparr>error_message := Some m\<rparr>"

definition update_job ::
  "int \<Rightarrow> state \<Rightarrow> string \<Rightarrow> field_update list \<Rightarrow> state \<times> (py_error + bool)"
where
  "update_job now st jid updates =
     (case get_job st jid of
        None \<Rightarrow> (st, Inr False)
      | Some j \<Rightarrow>
          let old_status = status j;
              j' = (fold setattr updates j)\<lparr>updated_at := now\<rparr>;
              st1 = st\<lparr>jobs := AList.update jid j' (jobs st)\<rparr>;
              new_status = status j'
          in if old_status \<noteq> new_status then
               let st2 = write_log (Job_status jid old_status new_status) st1 in
               if new_status \<in> {Ready, Error} then
                 (case archive_job now st2 j' of
                    Inl e \<Rightarrow> (st2, Inl e)
                  | Inr st3 \<Rightarrow> (invalidate_metrics_cache st3, Inr True))
               else (invalidate_metrics_cache st2, Inr True)
             else (invalidate_metrics_cache st1, Inr True))"

text \<open>
  \<^verbatim>\<open>cleanup_old_jobs\<close>. The age test \<^verbatim>\<open>age_hours > max_age_hours\<close> is taken exactly, on
  microseconds.

  The history cutoff is \<^verbatim>\<open>current_time - timedelta(hours=max_age_hours * 7)\<close>.
  \<^verbatim>\<open>timedelta(hours=h)\<close> raises \<^verbatim>\<open>OverflowError\<close> unless the days of the duration, rounded
  down, lie within 999999999 either way, and the subtraction raises \<^verbatim>\<open>OverflowError\<close> unless
  its result lies between \<^verbatim>\<open>datetime.min\<close> and \<^verbatim>\<open>datetime.max\<close>, the years 1 to 9999, here
  in microseconds from the epoch. The cutoff is computed after the old jobs were removed,
  so they stay removed when it raises.
\<close>

definition hour :: int where
  "hour = 3600000000"

definition day :: int where
  "day = 24 * hour"

definition datetime_min :: int where
  "datetime_min = - 62135596800000000"

definition datetime_max :: int where
  "datetime_max = 253402300799999999"

definition timedelta_hours :: "int \<Rightarrow> py_error + int" where
  "timedelta_hours h =
     (if (h * hour) div day < - 999999999 \<or> 999999999 < (h * hour) div day
      then Inl OverflowError
      else Inr (h * hour))"

definition datetime_minus :: "int \<Rightarrow> int \<Rightarrow> py_error + int" where
  "datetime_minus t delta =
     (if t - delta < datetime_min \<or> datetime_max < t - delta then Inl OverflowError
      else Inr (t - delta))"

definition too_old :: "int \<Rightarrow> int \<Rightarrow> job \<Rightarrow> bool" where
  "too_old current_time max_age_hours j = (current_time - created_at j > max_age_hours * hour)"

definition history_time :: "history_record \<Rightarrow> int" where
  "history_time h = (case h_completed_at h of None \<Rightarrow> created_at (h_job h) | Some t \<Rightarrow> t)"

definition cleanup_old_jobs :: "int \<Rightarrow> state \<Rightarrow> int \<Rightarrow> state \<times> (py_error + nat)" where
  "cleanup_old_jobs current_time st max_age_hours =
     (let jobs_to_remove =
            map fst (filter (\<lambda>(jid, j). too_old current_time max_age_hours j) (jobs st));
          st1 = fold (\<lambda>jid s. fst (remove_job s jid)) jobs_to_remove st
      in case timedelta_hours (max_age_hours * 7) of
           Inl err \<Rightarrow> (st1, Inl err)
         | Inr delta \<Rightarrow>
        (case datetime_minus current_time delta of
           Inl err \<Rightarrow> (st1, Inl err)
         | Inr history_cutoff \<Rightarrow>
             let st2 = st1\<lparr>job_history :=
                         filter (\<lambda>h. history_time h > history_cutoff) (job_history st1)\<rparr>;
                 st3 = (if jobs_to_remove \<noteq> []
                        then write_log (Jobs_cleaned (length jobs_to_remove)) st2
                        else st2)
             in (invalidate_metrics_cache st3, Inr (length jobs_to_remove))))"

text \<open>\<^verbatim>\<open>get_queue_position\<close>: \<^verbatim>\<open>list.sort\<close> is stable, as \<^const>\<open>sort_key\<close> is.\<close>

fun first_position :: "('a \<Rightarrow> bool) \<Rightarrow> nat \<Rightarrow> 'a list \<Rightarrow> nat option" where
  "first_position P i [] = None"
| "first_position P i (x # xs) = (if P x then Some i else first_position P (Suc i) xs)"

definition get_queue_position :: "state \<Rightarrow> string \<Rightarrow> nat option" where
  "get_queue_position st jid =
     (case get_job st jid of
        None \<Rightarrow> None
      | Some j \<Rightarrow>
          if status j \<noteq> Queued then None
          else first_position (\<lambda>j. job_id j = jid) 1
                 (sort_key created_at (get_jobs_by_status st Queued)))"

section \<open>Render service\<close>

subsection \<open>\<^verbatim>\<open>_get_scene_class_name\<close>\<close>

text \<open>\<^verbatim>\<open>class\s+(\w+)\s*\(\s*Scene\s*\)\<close> and the fallback \<^verbatim>\<open>class\s+(\w+)\s*\(\<close>.\<close>

definition scene_class_pattern :: regex where
  "scene_class_pattern =
     seqs [Str ''class'', Plus is_space, Grp (Plus is_word), Star is_space, Str ''('',
           Star is_space, Str ''Scene'', Star is_space, Str '')'']"

definition any_class_pattern :: regex where
  "any_class_pattern =
     seqs [Str ''class'', Plus is_space, Grp (Plus is_word), Star is_space, Str ''('']"

definition group1 :: "mstate \<Rightarrow> string" where
  "group1 st = (case grp st of None \<Rightarrow> [] | Some g \<Rightarrow> g)"

definition get_scene_class_name :: "string \<Rightarrow> py_error + string" where
  "get_scene_class_name code_text =
     (case re_search False scene_class_pattern code_text of
        Some st \<Rightarrow> Inr (group1 st)
      | None \<Rightarrow>
          (case re_search False any_class_pattern code_text of
             Some st \<Rightarrow> Inr (group1 st)
           | None \<Rightarrow> Inl (ValueError ''No Scene class found in code'')))"







subsection \<open>The environment of one render task\<close>

text \<open>
  What the task reads from outside the program: the clock, the outcome of writing and of
  deleting the code file, the outcome of the \<^verbatim>\<open>manim\<close> subprocess under its timeout, and
  whether the video file exists afterwards.
\<close>

datatype render_outcome =
    Exited int
  | Timed_out
  | Raised string

record env =
  time_started :: int
  time_finished :: int
  code_timestamp :: string
  video_timestamp :: string
  write_error :: "string option"
  render_outcome :: render_outcome
  video_exists :: bool
  unlink_error :: "string option"
  MANIM_QUALITY :: string
  RENDER_TIMEOUT_SEC :: nat

definition code_dir :: string where
  "code_dir = ''app/storage/code''"

definition videos_dir :: string where
  "videos_dir = ''app/storage/videos''"

definition str_of_error :: "py_error \<Rightarrow> string" where
  "str_of_error e =
     (case e of ValueError m \<Rightarrow> m | TypeError m \<Rightarrow> m | OSError m \<Rightarrow> m | OverflowError \<Rightarrow> [])"

definition get_safe_filepath :: "string \<Rightarrow> string \<Rightarrow> string \<Rightarrow> py_error + string" where
  "get_safe_filepath timestamp name extension =
     (let safe_filename = name @ ''_'' @ timestamp @ extension
      in if extension = ''.py'' then Inr (code_dir @ ''/'' @ safe_filename)
         else if extension = ''.mp4'' then Inr (videos_dir @ ''/'' @ safe_filename)
         else Inl (ValueError (''Unsupported file extension: '' @ extension)))"

definition save_code_file :: "env \<Rightarrow> state \<Rightarrow> string \<Rightarrow> string \<Rightarrow> state \<times> (py_error + string)" where
  "save_code_file e st name code_text =
     (case get_safe_filepath (code_timestamp e) name ''.py'' of
        Inl err \<Rightarrow> (st, Inl err)
      | Inr code_path \<Rightarrow>
          (case write_error e of
             None \<Rightarrow>
               (write_log (Code_saved code_path) (st\<lparr>files := insert code_path (files st)\<rparr>),
                Inr code_path)
           | Some msg \<Rightarrow>
               (write_log (Code_save_failed msg) st,
                Inl (ValueError (''Failed to save code file: '' @ msg)))))"

definition basename :: "string \<Rightarrow> string" where
  "basename path = rev (takeWhile (\<lambda>c. c \<noteq> CHR ''/'') (rev path))"

definition execute_manim_render :: "env \<Rightarrow> state \<Rightarrow> string \<Rightarrow> string \<Rightarrow> string \<Rightarrow> state \<times> bool" where
  "execute_manim_render e st code_path scene_class output_path =
     (let cmd = [''manim'', code_path, scene_class,
                 ''--quality='' @ lower (MANIM_QUALITY e),
                 ''--output_file='' @ basename output_path,
                 ''--disable_caching'', ''--write_to_movie''];
          st1 = write_log (Manim_command cmd) st
      in case render_outcome e of
           Exited returncode \<Rightarrow>
             if returncode = 0 then (write_log (Manim_successful output_path) st1, True)
             else (write_log (Manim_failed_code returncode) st1, False)
         | Timed_out \<Rightarrow> (write_log (Manim_timed_out (RENDER_TIMEOUT_SEC e)) st1, False)
         | Raised msg \<Rightarrow> (write_log (Manim_exception msg) st1, False))"

subsection \<open>\<^verbatim>\<open>create_render_job\<close> and \<^verbatim>\<open>_process_render_job\<close>\<close>

record render_job =
  jobId :: string
  rj_status :: status
  videoUrl :: "string option"
  rj_error :: "string option"

text \<open>
  \<^verbatim>\<open>create_render_job\<close> is given the identifier \<^verbatim>\<open>uuid.uuid4()\<close> returned and the time.
  The task it schedules is \<open>process_render_job\<close>, run later on the state of that moment.
\<close>

definition create_render_job :: "string \<Rightarrow> int \<Rightarrow> state \<Rightarrow> string \<Rightarrow> string \<Rightarrow> state \<times> render_job" where
  "create_render_job new_id current_time st name code_text =
     (let j = \<lparr>job_id = new_id, status = Queued, filename = name, code = code_text,
               created_at = current_time, updated_at = current_time,
               video_path = None, error_message = None\<rparr>
      in (write_log (Job_created new_id name) (add_job st j),
          \<lparr>jobId = new_id, rj_status = Queued, videoUrl = None, rj_error = None\<rparr>))"

text \<open>
  The body of the \<^verbatim>\<open>try\<close> block: it ends with the state it leaves and, when a step raised,
  the exception.
\<close>

definition cleanup_code_file :: "env \<Rightarrow> state \<Rightarrow> string \<Rightarrow> state" where
  "cleanup_code_file e st code_path =
     (case unlink_error e of
        None \<Rightarrow>
          if code_path \<in> files st
          then write_log (Code_cleaned code_path) (st\<lparr>files := files st - {code_path}\<rparr>)
          else write_log (Code_cleanup_failed ''No such file or directory'') st
      | Some msg \<Rightarrow> write_log (Code_cleanup_failed msg) st)"

definition render_steps :: "env \<Rightarrow> state \<Rightarrow> job \<Rightarrow> string \<Rightarrow> state \<times> py_error option" where
  "render_steps e st j jid =
     (let st1 = write_log (Job_starting jid) st in
      case update_job (time_started e) st1 jid [Set_status Rendering] of
        (st2, Inl err) \<Rightarrow> (st2, Some err)
      | (st2, Inr _) \<Rightarrow>
      (case save_code_file e st2 (filename j) (code j) of
        (st3, Inl err) \<Rightarrow> (st3, Some err)
      | (st3, Inr code_path) \<Rightarrow>
      (case get_scene_class_name (code j) of
        Inl err \<Rightarrow> (st3, Some err)
      | Inr scene_class \<Rightarrow>
      (case get_safe_filepath (video_timestamp e) (filename j) ''.mp4'' of
        Inl err \<Rightarrow> (st3, Some err)
      | Inr video \<Rightarrow>
      (case execute_manim_render e st3 code_path scene_class video of
        (st4, success) \<Rightarrow>
      (case (if success \<and> video_exists e
             then (case update_job (time_finished e) st4 jid
                          [Set_status Ready, Set_video_path video] of
                     (st5, Inl err) \<Rightarrow> (st5, Some err)
                   | (st5, Inr _) \<Rightarrow> (write_log (Job_completed jid) st5, None))
             else (case update_job (time_finished e) st4 jid
                          [Set_status Error, Set_error_message ''Manim rendering failed''] of
                     (st5, Inl err) \<Rightarrow> (st5, Some err)
                   | (st5, Inr _) \<Rightarrow> (write_log (Job_failed jid) st5, None))) of
        (st6, Some err) \<Rightarrow> (st6, Some err)
      | (st6, None) \<Rightarrow> (cleanup_code_file e st6 code_path, None)))))))"

text \<open>
  \<^verbatim>\<open>_process_render_job\<close>: the result is the state the task leaves and the exception that
  leaves the task, if any (one raised inside the \<^verbatim>\<open>except\<close> handler).
\<close>

definition process_render_job :: "env \<Rightarrow> state \<Rightarrow> string \<Rightarrow> state \<times> py_error option" where
  "process_render_job e st jid =
     (case get_job st jid of
        None \<Rightarrow> (write_log (Job_not_found jid) st, None)
      | Some j \<Rightarrow>
          (case render_steps e st j jid of
             (st', None) \<Rightarrow> (st', None)
           | (st', Some err) \<Rightarrow>
               (case update_job (time_finished e) st' jid
                       [Set_status Error,
                        Set_error_message (''Render processing error: '' @ str_of_error err)] of
                  (st'', Inl err') \<Rightarrow> (st'', Some err')
                | (st'', Inr _) \<Rightarrow>
                    (write_log (Job_processing_error jid (str_of_error err)) st'', None))))"

text \<open>The status changes of a job, as \<^verbatim>\<open>update_job\<close> wrote them to the log.\<close>

fun status_changes :: "string \<Rightarrow> log_event list \<Rightarrow> (status \<times> status) list" where
  "status_changes jid [] = []"
| "status_changes jid (Job_status i old new # es) =
     (if i = jid then (old, new) # status_changes jid es else status_changes jid es)"
| "status_changes jid (_ # es) = status_changes jid es"

text \<open>
  The queue position in the words of the specification: the rank by \<^verbatim>\<open>created_at\<close>, a tie
  going to the smaller identifier. It is used to compare \<open>get_queue_position\<close> with.
\<close>

definition queue_position_by_identifier :: "state \<Rightarrow> string \<Rightarrow> nat option" where
  "queue_position_by_identifier st jid =
     (case get_job st jid of
        None \<Rightarrow> None
      | Some j \<Rightarrow>
          if status j \<noteq> Queued then None
          else Some (Suc (length (filter
                 (\<lambda>j'. created_at j' < created_at j
                        \<or> (created_at j' = created_at j \<and> job_id j' < job_id j))
                 (get_jobs_by_status st Queued)))))"

section \<open>Example inputs\<close>

definition empty_state :: state where
  "empty_state = \<lparr>jobs = [], job_history = [], metrics_cached = False, files = {}, log_lines = []\<rparr>"

definition demo_code :: string where
  "demo_code =
     ''from manim import *\<newline>class Demo(Scene):\<newline>    def construct(self):\<newline>        pass''"

definition plain_class_code :: string where
  "plain_class_code =
     ''from manim import *\<newline>class Demo:\<newline>    def construct(self):\<newline>        pass''"




definition demo_env :: env where
  "demo_env =
     \<lparr>time_started = 10, time_finished = 20,
      code_timestamp = ''20250823_132820'', video_timestamp = ''20250823_132820'',
      write_error = None, render_outcome = Exited 0, video_exists = True,
      unlink_error = None, MANIM_QUALITY = ''L'', RENDER_TIMEOUT_SEC = 180\<rparr>"

definition demo_job :: job where
  "demo_job =
     \<lparr>job_id = ''job-1'', status = Queued, filename = ''demo'', code = demo_code,
      created_at = 5, updated_at = 5, video_path = None, error_message = None\<rparr>"

definition queued_state :: "string \<Rightarrow> state" where
  "queued_state code_text = fst (create_render_job ''job-1'' 5 empty_state ''demo'' code_text)"

definition tie_state :: state where
  "tie_state =
     fst (create_render_job ''a'' 7 (fst (create_render_job ''b'' 7 empty_state ''demo'' demo_code))
            ''demo'' demo_code)"

text \<open>
  A store with a job created long ago and a recent one, and a history of three entries:
  one completed long ago, a recent one, and one without \<^verbatim>\<open>completed_at\<close>.
\<close>

definition aged_state :: state where
  "aged_state =
     (fst (create_render_job ''new'' (190 * hour)
             (fst (create_render_job ''old'' hour empty_state ''demo'' demo_code))
             ''demo'' demo_code))
     \<lparr>job_history :=
        [\<lparr>h_job = demo_job, h_completed_at = Some (10 * hour),
          h_total_processing_time = Some 5\<rparr>,
         \<lparr>h_job = demo_job, h_completed_at = Some (100 * hour),
          h_total_processing_time = Some 5\<rparr>,
         \<lparr>h_job = demo_job, h_completed_at = None, h_total_processing_time = None\<rparr>]\<rparr>"


section \<open>Auxiliary facts\<close>

subsection \<open>Text\<close>

lemma str_in_iff: "str_in sub s \<longleftrightarrow> (\<exists>p q. s = p @ sub @ q)"
proof (induction s)
  case Nil
  then show ?case by auto
next
  case (Cons c cs)
  show ?case
  proof
    assume "str_in sub (c # cs)"
    then consider "prefix sub (c # cs)" | "str_in sub cs" by auto
    then show "\<exists>p q. c # cs = p @ sub @ q"
    proof cases
      case 1
      then obtain q where "c # cs = sub @ q" by (auto simp: prefix_def)
      then have "c # cs = [] @ sub @ q" by simp
      then show ?thesis by blast
    next
      case 2
      then obtain p q where "cs = p @ sub @ q" using Cons.IH by blast
      then have "c # cs = (c # p) @ sub @ q" by simp
      then show ?thesis by blast
    qed
  next
    assume "\<exists>p q. c # cs = p @ sub @ q"
    then obtain p q where pq: "c # cs = p @ sub @ q" by blast
    show "str_in sub (c # cs)"
    proof (cases p)
      case Nil
      then have "prefix sub (c # cs)" using pq by (simp add: prefix_def)
      then show ?thesis by simp
    next
      case (Cons a p')
      then have "cs = p' @ sub @ q" using pq by simp
      then have "str_in sub cs" using Cons.IH by blast
      then show ?thesis by simp
    qed
  qed
qed

lemma lower_char_spaces:
  "list_all (\<lambda>c. lower_char c = c)
     [CHR 0x09, CHR 0x0A, CHR 0x0B, CHR 0x0C, CHR 0x0D,
      CHR 0x1C, CHR 0x1D, CHR 0x1E, CHR 0x1F, CHR 0x20]"
  by code_simp

lemma lower_char_space: "is_space c \<Longrightarrow> lower_char c = c"
  using lower_char_spaces unfolding is_space_def list_all_iff by blast

lemma lstrip_infix:
  assumes "w \<noteq> []" "\<not> is_space (hd w)"
  shows "\<exists>p'. lstrip (p @ w @ q) = p' @ w @ q"
proof (cases "\<forall>x\<in>set p. is_space x")
  case True
  then have "lstrip (p @ w @ q) = dropWhile is_space (w @ q)"
    by (simp add: lstrip_def)
  also have "\<dots> = w @ q" using assms by (cases w) auto
  finally have "lstrip (p @ w @ q) = [] @ w @ q" by simp
  then show ?thesis by blast
next
  case False
  then obtain x where "x \<in> set p" "\<not> is_space x" by blast
  then have "lstrip (p @ w @ q) = dropWhile is_space p @ w @ q"
    unfolding lstrip_def by (rule dropWhile_append1)
  then show ?thesis by blast
qed

lemma rstrip_infix:
  assumes "w \<noteq> []" "\<not> is_space (last w)"
  shows "\<exists>q'. rstrip (p @ w @ q) = p @ w @ q'"
proof -
  have "rev w \<noteq> []" "\<not> is_space (hd (rev w))" using assms by (simp_all add: hd_rev)
  from lstrip_infix [OF this, of "rev q" "rev p"]
  obtain r where "lstrip (rev q @ rev w @ rev p) = r @ rev w @ rev p" by blast
  then have "rstrip (p @ w @ q) = rev (r @ rev w @ rev p)"
    by (simp add: rstrip_def lstrip_def)
  then have "rstrip (p @ w @ q) = p @ w @ rev r" by simp
  then show ?thesis by blast
qed

lemma strip_infix:
  assumes "w \<noteq> []" "\<not> is_space (hd w)" "\<not> is_space (last w)"
  shows "\<exists>p' q'. strip (p @ w @ q) = p' @ w @ q'"
proof -
  obtain p' where "lstrip (p @ w @ q) = p' @ w @ q" using lstrip_infix assms by blast
  moreover obtain q' where "rstrip (p' @ w @ q) = p' @ w @ q'" using rstrip_infix assms by blast
  ultimately show ?thesis by (auto simp: strip_def)
qed

lemma http_any_case:
  assumes "lower w = ''http''"
  shows "w \<noteq> []" "\<not> is_space (hd w)" "\<not> is_space (last w)"
proof -
  from assms have "map lower_char w = [CHR ''h'', CHR ''t'', CHR ''t'', CHR ''p'']"
    by (simp add: lower_def)
  then obtain a b c d where w: "w = [a, b, c, d]"
    and l: "lower_char a = CHR ''h''" "lower_char d = CHR ''p''"
    unfolding map_eq_Cons_conv by blast
  have h: "\<not> is_space (CHR ''h'')" and p: "\<not> is_space (CHR ''p'')"
    by (simp_all add: is_space_def)
  show "w \<noteq> []" using w by simp
  show "\<not> is_space (hd w)"
  proof
    assume "is_space (hd w)"
    then have "is_space a" using w by simp
    then have "a = CHR ''h''" using lower_char_space [of a] l by simp
    then show False using \<open>is_space a\<close> h by simp
  qed
  show "\<not> is_space (last w)"
  proof
    assume "is_space (last w)"
    then have "is_space d" using w by simp
    then have "d = CHR ''p''" using lower_char_space [of d] l by simp
    then show False using \<open>is_space d\<close> p by simp
  qed
qed

subsection \<open>\<^verbatim>\<open>validate_code\<close>\<close>

lemma validate_code_error:
  "validate_code c = Inl e \<Longrightarrow> \<exists>msg. e = ValueError msg"
  unfolding validate_code_def Let_def
  by (auto split: option.splits if_splits)

lemma validate_code_network:
  assumes "list_ex (\<lambda>pattern. str_in pattern (lower (strip c))) network_patterns"
  shows "validate_code c \<noteq> Inr r"
  using assms unfolding validate_code_def Let_def
  by (auto split: option.splits if_splits)

subsection \<open>The matcher and the words of a pattern\<close>


lemma adv_fields [simp]:
  "pre (adv n st) = rev (take n (rest st)) @ pre st"
  "grp (adv n st) = grp st"
  "rest (adv n st) = drop n (rest st)"
  by (simp_all add: adv_def)























subsection \<open>Acceptance by \<^verbatim>\<open>validate_code\<close>\<close>






subsection \<open>The state and \<^verbatim>\<open>update_job\<close>\<close>

lemma get_job_simps [simp]:
  "get_job (write_log ev st) jid = get_job st jid"
  "get_job (invalidate_metrics_cache st) jid = get_job st jid"
  "get_job (st\<lparr>files := F\<rparr>) jid = get_job st jid"
  "get_job (st\<lparr>jobs := AList.update jid j (jobs st)\<rparr>) jid = Some j"
  by (simp_all add: get_job_def write_log_def invalidate_metrics_cache_def update_conv')

lemma log_lines_simps [simp]:
  "log_lines (write_log ev st) = log_lines st @ [ev]"
  "log_lines (invalidate_metrics_cache st) = log_lines st"
  by (simp_all add: write_log_def invalidate_metrics_cache_def)

lemma files_simps [simp]:
  "files (write_log ev st) = files st"
  "files (invalidate_metrics_cache st) = files st"
  by (simp_all add: write_log_def invalidate_metrics_cache_def)








subsection \<open>The rate limiter\<close>



subsection \<open>The job store\<close>

lemma jobs_simps [simp]:
  "jobs (write_log ev st) = jobs st"
  "jobs (invalidate_metrics_cache st) = jobs st"
  "job_history (write_log ev st) = job_history st"
  "job_history (invalidate_metrics_cache st) = job_history st"
  "metrics_cached (write_log ev st) = metrics_cached st"
  "metrics_cached (invalidate_metrics_cache st) = False"
  by (simp_all add: write_log_def invalidate_metrics_cache_def)

lemma remove_job_jobs:
  "jobs (fst (remove_job st jid)) = filter (\<lambda>(k, j). k \<noteq> jid) (jobs st)"
proof (cases "jid \<in> fst ` set (jobs st)")
  case True
  have "filter (\<lambda>(k', _). jid \<noteq> k') (jobs st) = filter (\<lambda>(k, j). k \<noteq> jid) (jobs st)"
    by (rule filter_cong) auto
  then show ?thesis using True by (simp add: remove_job_def AList.delete_eq)
next
  case False
  then have "filter (\<lambda>(k, j). k \<noteq> jid) (jobs st) = jobs st"
    by (force simp: filter_id_conv)
  then show ?thesis using False by (simp add: remove_job_def)
qed

lemma remove_job_history:
  "job_history (fst (remove_job st jid)) = job_history st"
  by (simp add: remove_job_def)

lemma fold_remove_job:
  "jobs (fold (\<lambda>jid s. fst (remove_job s jid)) ks st) = filter (\<lambda>(k, j). k \<notin> set ks) (jobs st)
   \<and> job_history (fold (\<lambda>jid s. fst (remove_job s jid)) ks st) = job_history st"
proof (induction ks arbitrary: st)
  case Nil
  then show ?case by simp
next
  case (Cons k ks)
  have "filter (\<lambda>(k', j). k' \<notin> set ks) (filter (\<lambda>(k', j). k' \<noteq> k) (jobs st))
        = filter (\<lambda>(k', j). k' \<notin> set (k # ks)) (jobs st)"
    by (auto intro: filter_cong)
  then show ?case using Cons.IH [of "fst (remove_job st k)"]
    by (simp add: remove_job_jobs remove_job_history)
qed

lemma keys_of_old:
  assumes "distinct (map fst js)"
  shows "filter (\<lambda>(k, j). k \<notin> set (map fst (filter (\<lambda>(k, j). P j) js))) js
         = filter (\<lambda>(k, j). \<not> P j) js"
proof (rule filter_cong [OF refl])
  fix x assume x: "x \<in> set js"
  obtain k j where kj: "x = (k, j)" by (cases x)
  have "k \<in> set (map fst (filter (\<lambda>(k, j). P j) js)) \<longleftrightarrow> P j"
  proof
    assume "k \<in> set (map fst (filter (\<lambda>(k, j). P j) js))"
    then obtain j' where "(k, j') \<in> set js" "P j'" by auto
    moreover have "j' = j" using assms x kj \<open>(k, j') \<in> set js\<close> by (meson eq_key_imp_eq_value)
    ultimately show "P j" by simp
  next
    assume "P j"
    then show "k \<in> set (map fst (filter (\<lambda>(k, j). P j) js))" using x kj by force
  qed
  then show "(case x of (k, j) \<Rightarrow> k \<notin> set (map fst (filter (\<lambda>(k, j). P j) js)))
             = (case x of (k, j) \<Rightarrow> \<not> P j)"
    using kj by simp
qed

lemma history_cutoff_in_range:
  assumes "datetime_min \<le> now" "now \<le> datetime_max"
    and "datetime_min \<le> now - m * 7 * hour" "now - m * 7 * hour \<le> datetime_max"
  shows "timedelta_hours (m * 7) = Inr (m * 7 * hour)"
    and "datetime_minus now (m * 7 * hour) = Inr (now - m * 7 * hour)"
proof -
  define d where "d = m * 7 * hour"
  have "- 315537897599999999 \<le> d" "d \<le> 315537897599999999"
    using assms by (simp_all add: d_def datetime_min_def datetime_max_def)
  then have "- 999999999 \<le> d div 86400000000" "d div 86400000000 \<le> 999999999"
    by linarith+
  then show "timedelta_hours (m * 7) = Inr (m * 7 * hour)"
    by (simp add: timedelta_hours_def d_def day_def hour_def)
  show "datetime_minus now (m * 7 * hour) = Inr (now - m * 7 * hour)"
    using assms by (simp add: datetime_minus_def)
qed

lemma cleanup_old_jobs_fields:
  assumes "distinct (map fst (jobs st))"
    and c: "timedelta_hours (m * 7) = Inr (m * 7 * hour)"
      "datetime_minus now (m * 7 * hour) = Inr (now - m * 7 * hour)"
  shows "jobs (fst (cleanup_old_jobs now st m)) = filter (\<lambda>(k, j). \<not> too_old now m j) (jobs st)"
    and "job_history (fst (cleanup_old_jobs now st m))
         = filter (\<lambda>h. history_time h > now - m * 7 * hour) (job_history st)"
    and "snd (cleanup_old_jobs now st m)
         = Inr (length (filter (\<lambda>(k, j). too_old now m j) (jobs st)))"
    and "metrics_cached (fst (cleanup_old_jobs now st m)) = False"
proof -
  let ?ks = "map fst (filter (\<lambda>(k, j). too_old now m j) (jobs st))"
  let ?st1 = "fold (\<lambda>jid s. fst (remove_job s jid)) ?ks st"
  have "jobs (fst (cleanup_old_jobs now st m)) = jobs ?st1"
    by (simp add: cleanup_old_jobs_def Let_def c)
  also have "\<dots> = filter (\<lambda>(k, j). k \<notin> set ?ks) (jobs st)"
    using fold_remove_job by blast
  also have "\<dots> = filter (\<lambda>(k, j). \<not> too_old now m j) (jobs st)"
    by (rule keys_of_old [OF assms(1)])
  finally show "jobs (fst (cleanup_old_jobs now st m))
      = filter (\<lambda>(k, j). \<not> too_old now m j) (jobs st)" .
  have "job_history (fst (cleanup_old_jobs now st m))
        = filter (\<lambda>h. history_time h > now - m * 7 * hour) (job_history ?st1)"
    by (simp add: cleanup_old_jobs_def Let_def c)
  then show "job_history (fst (cleanup_old_jobs now st m))
         = filter (\<lambda>h. history_time h > now - m * 7 * hour) (job_history st)"
    using fold_remove_job [of ?ks st] by simp
  show "snd (cleanup_old_jobs now st m)
         = Inr (length (filter (\<lambda>(k, j). too_old now m j) (jobs st)))"
    by (simp add: cleanup_old_jobs_def Let_def c)
  show "metrics_cached (fst (cleanup_old_jobs now st m)) = False"
    by (simp add: cleanup_old_jobs_def Let_def c)
qed

lemma cleanup_nothing_old:
  assumes "filter (\<lambda>(k, j). too_old now m j) (jobs st) = []"
    and "filter (\<lambda>h. history_time h > now - m * 7 * hour) (job_history st) = job_history st"
    and "metrics_cached st = False"
    and c: "timedelta_hours (m * 7) = Inr (m * 7 * hour)"
      "datetime_minus now (m * 7 * hour) = Inr (now - m * 7 * hour)"
  shows "cleanup_old_jobs now st m = (st, Inr 0)"
  using assms(1,2,3) by (simp add: cleanup_old_jobs_def Let_def invalidate_metrics_cache_def c)

lemma first_position_takeWhile:
  "\<exists>x\<in>set xs. P x \<Longrightarrow>
   first_position P i xs = Some (i + length (takeWhile (\<lambda>x. \<not> P x) xs))"
proof (induction xs arbitrary: i)
  case Nil
  then show ?case by simp
next
  case (Cons a xs)
  show ?case
  proof (cases "P a")
    case True
    then show ?thesis by simp
  next
    case False
    then have "\<exists>x\<in>set xs. P x" using Cons.prems by auto
    from Cons.IH [OF this, of "Suc i"] show ?thesis using False by simp
  qed
qed

lemma first_position_none: "\<forall>x\<in>set xs. \<not> P x \<Longrightarrow> first_position P i xs = None"
  by (induction xs arbitrary: i) auto

lemma sort_key_stable_flipped:
  "filter (\<lambda>x. c = f x) (sort_key f zs) = filter (\<lambda>x. c = f x) zs"
proof -
  have "(\<lambda>x. c = f x) = (\<lambda>x. f x = c)" by auto
  then show ?thesis by (simp add: sort_key_stable)
qed

lemma sort_key_split:
  fixes f :: "'a \<Rightarrow> 'k::linorder"
  shows "sort_key f xs
         = sort_key f (filter (\<lambda>x. f x < k) xs) @ filter (\<lambda>x. f x = k) xs
           @ sort_key f (filter (\<lambda>x. k < f x) xs)"
    (is "_ = ?ys")
proof (rule properties_for_sort_key)
  show "mset ?ys = mset xs"
    by (induction xs) auto
  have "sorted (map f (filter (\<lambda>x. f x = k) xs))"
    using sorted_map_same [of f "\<lambda>_. k" xs] by simp
  then show "sorted (map f ?ys)"
    by (auto simp: sorted_append)
  show "\<And>j. j \<in> set ?ys \<Longrightarrow> filter (\<lambda>x. f j = f x) ?ys = filter (\<lambda>x. f j = f x) xs"
  proof -
    fix j assume "j \<in> set ?ys"
    consider "f j < k" | "f j = k" | "k < f j" by (rule linorder_cases)
    then show "filter (\<lambda>x. f j = f x) ?ys = filter (\<lambda>x. f j = f x) xs"
    proof cases
      case 1
      then have "filter (\<lambda>x. f j = f x) ?ys = filter (\<lambda>x. f j = f x) (sort_key f (filter (\<lambda>x. f x < k) xs))"
        by (auto simp: filter_empty_conv)
      also have "\<dots> = filter (\<lambda>x. f j = f x) (filter (\<lambda>x. f x < k) xs)"
        by (rule sort_key_stable_flipped)
      also have "\<dots> = filter (\<lambda>x. f j = f x) xs"
        using 1 by (auto intro: filter_cong)
      finally show ?thesis .
    next
      case 2
      have "filter (\<lambda>x. f j = f x) (sort_key f (filter (\<lambda>x. f x < k) xs)) = []"
        using 2 by (auto simp: filter_empty_conv)
      moreover have "filter (\<lambda>x. f j = f x) (sort_key f (filter (\<lambda>x. k < f x) xs)) = []"
        using 2 by (auto simp: filter_empty_conv)
      moreover have "filter (\<lambda>x. f j = f x) (filter (\<lambda>x. f x = k) xs) = filter (\<lambda>x. f j = f x) xs"
        using 2 by (auto intro: filter_cong)
      ultimately show ?thesis by (simp del: filter_filter)
    next
      case 3
      then have "filter (\<lambda>x. f j = f x) ?ys = filter (\<lambda>x. f j = f x) (sort_key f (filter (\<lambda>x. k < f x) xs))"
        by (auto simp: filter_empty_conv)
      also have "\<dots> = filter (\<lambda>x. f j = f x) (filter (\<lambda>x. k < f x) xs)"
        by (rule sort_key_stable_flipped)
      also have "\<dots> = filter (\<lambda>x. f j = f x) xs"
        using 3 by (auto intro: filter_cong)
      finally show ?thesis .
    qed
  qed
qed

lemma takeWhile_filter_swap:
  "\<forall>y\<in>set xs. \<not> Q y \<longrightarrow> R y \<Longrightarrow>
   takeWhile Q (filter R xs) = filter R (takeWhile Q xs)"
  by (induction xs) auto

lemma position_in_stable_sort:
  fixes f :: "'a \<Rightarrow> 'k::linorder"
  assumes x: "x \<in> set xs" "P x" and uniq: "\<forall>y\<in>set xs. P y \<longrightarrow> y = x"
  shows "first_position P i (sort_key f xs)
         = Some (i + length (filter (\<lambda>y. f y < f x) xs)
                   + length (filter (\<lambda>y. f y = f x) (takeWhile (\<lambda>y. \<not> P y) xs)))"
proof -
  let ?L = "sort_key f (filter (\<lambda>y. f y < f x) xs)"
  let ?E = "filter (\<lambda>y. f y = f x) xs"
  let ?G = "sort_key f (filter (\<lambda>y. f x < f y) xs)"
  have split: "sort_key f xs = ?L @ ?E @ ?G" by (rule sort_key_split)
  have "\<exists>y\<in>set (sort_key f xs). P y" using x by auto
  then have "first_position P i (sort_key f xs)
      = Some (i + length (takeWhile (\<lambda>y. \<not> P y) (sort_key f xs)))"
    by (rule first_position_takeWhile)
  moreover have "takeWhile (\<lambda>y. \<not> P y) (sort_key f xs) = ?L @ takeWhile (\<lambda>y. \<not> P y) ?E"
  proof -
    have noL: "\<forall>y\<in>set ?L. \<not> P y" using uniq by auto
    have inE: "x \<in> set ?E" using x by simp
    have "takeWhile (\<lambda>y. \<not> P y) (?L @ ?E @ ?G) = ?L @ takeWhile (\<lambda>y. \<not> P y) (?E @ ?G)"
      using noL by (intro takeWhile_append2) blast
    also have "takeWhile (\<lambda>y. \<not> P y) (?E @ ?G) = takeWhile (\<lambda>y. \<not> P y) ?E"
      using inE x(2) by (intro takeWhile_append1 [of x]) auto
    finally show ?thesis using split by simp
  qed
  moreover have "takeWhile (\<lambda>y. \<not> P y) ?E = filter (\<lambda>y. f y = f x) (takeWhile (\<lambda>y. \<not> P y) xs)"
    using uniq by (intro takeWhile_filter_swap) auto
  ultimately show ?thesis by simp
qed

section \<open>Properties\<close>

text \<open>
  C1. A job's status is to move along queued, rendering, then ready or error, and a terminal
  status is never to change. On a render that succeeds the code breaks this: \<^verbatim>\<open>update_job\<close>
  sets the status to ready and then raises in \<^verbatim>\<open>_archive_job\<close>, and the handler of
  \<^verbatim>\<open>_process_render_job\<close> sets the status of the ready job to error.
\<close>

theorem successful_render_leaves_ready_for_error:
  "status_changes ''job-1''
     (log_lines (fst (process_render_job demo_env (queued_state demo_code) ''job-1'')))
   = [(Queued, Rendering), (Rendering, Ready), (Ready, Error)]
   \<and> map_option status
       (get_job (fst (process_render_job demo_env (queued_state demo_code) ''job-1'')) ''job-1'')
     = Some Error"
  by code_simp


text \<open>
  C5. The code file is to be gone when the task ends, whatever the outcome. For code that
  passes \<open>validate_code\<close> but whose class has no base list, the class name is not found,
  the task ends in the handler, and the file written before is still there.
\<close>

theorem code_file_left_behind:
  "validate_code plain_class_code = Inr plain_class_code
   \<and> files (queued_state plain_class_code) = {}
   \<and> files (fst (process_render_job demo_env (queued_state plain_class_code) ''job-1''))
     = {''app/storage/code/demo_20250823_132820.py''}"
  by code_simp


text \<open>
  C7, as stated: among queued jobs with equal \<^verbatim>\<open>created_at\<close> the smaller identifier is to
  come first. Job \<^verbatim>\<open>a\<close>, added after job \<^verbatim>\<open>b\<close> at the same instant, gets position 2.
\<close>

theorem queue_tie_counterexample:
  "get_queue_position tie_state ''a'' = Some 2
   \<and> queue_position_by_identifier tie_state ''a'' = Some 1"
  by code_simp

text \<open>
  C9. The name returned is to hold letters, digits, underscores and hyphens only. The
  pattern ends in \<^verbatim>\<open>$\<close>, which also matches before a final newline, so a name ending in a
  newline is returned as it is.
\<close>

theorem filename_keeps_newline:
  "validate_filename ''demo\<newline>.py'' = Inr ''demo\<newline>''
   \<and> \<not> list_all is_safe_char ''demo\<newline>''"
  by code_simp



text \<open>
  C10. Code that holds \<^verbatim>\<open>http\<close> anywhere, in any letter case, is rejected: \<open>w\<close> is the
  occurrence, \<open>p\<close> and \<open>q\<close> the text around it.
\<close>

theorem validate_code_rejects_http:
  assumes "lower w = ''http''"
  shows "\<exists>msg. validate_code (p @ w @ q) = Inl (ValueError msg)"
proof -
  obtain p' q' where s: "strip (p @ w @ q) = p' @ w @ q'"
    using strip_infix http_any_case [OF assms] by blast
  have "lower (strip (p @ w @ q)) = lower p' @ ''http'' @ lower q'"
    using assms by (simp add: s lower_def)
  then have "str_in ''http'' (lower (strip (p @ w @ q)))"
    unfolding str_in_iff by blast
  then have net: "list_ex (\<lambda>pattern. str_in pattern (lower (strip (p @ w @ q)))) network_patterns"
    by (simp add: network_patterns_def)
  obtain e where "validate_code (p @ w @ q) = Inl e"
    using validate_code_network [OF net] by (cases "validate_code (p @ w @ q)") auto
  then show ?thesis using validate_code_error by blast
qed

theorem validate_code_rejects_http_witness:
  "\<exists>msg. validate_code (demo_code @ ''  # see HtTp'' @ ''://docs'') = Inl (ValueError msg)"
proof -
  have "lower ''HtTp'' = ''http''" by code_simp
  from validate_code_rejects_http [OF this, of "demo_code @ ''  # see ''" "''://docs''"]
  show ?thesis by simp
qed




text \<open>
  C7, amended: the position of a queued job is one more than the number of queued jobs
  created before it plus the number of queued jobs created at the same instant that were
  added to the store before it; a tie goes to the job added first, not to the smaller
  identifier. A job that is absent or not queued has no position. The store is a
  dictionary, so its keys are distinct, and \<^verbatim>\<open>add_job\<close> files each job under its own
  identifier.
\<close>

theorem get_queue_position_rank:
  assumes d: "distinct (map fst (jobs st))" and ids: "\<forall>(k, j)\<in>set (jobs st). job_id j = k"
  shows "get_queue_position st jid =
     (case get_job st jid of
        None \<Rightarrow> None
      | Some j \<Rightarrow>
          if status j \<noteq> Queued then None
          else Some (1
            + length (filter (\<lambda>j'. status j' = Queued \<and> created_at j' < created_at j)
                        (map snd (jobs st)))
            + length (filter (\<lambda>j'. status j' = Queued \<and> created_at j' = created_at j)
                        (map snd (takeWhile (\<lambda>(k, _). k \<noteq> jid) (jobs st))))))"
proof (cases "get_job st jid")
  case None
  then show ?thesis by (simp add: get_queue_position_def)
next
  case (Some j)
  show ?thesis
  proof (cases "status j = Queued")
    case False
    then show ?thesis using Some by (simp add: get_queue_position_def)
  next
    case True
    let ?qs = "get_jobs_by_status st Queued"
    let ?P = "\<lambda>j'. job_id j' = jid"
    have jin: "(jid, j) \<in> set (jobs st)" using Some by (simp add: get_job_def map_of_SomeD)
    then have jq: "j \<in> set ?qs" using True by (force simp: get_jobs_by_status_def)
    have Pj: "?P j" using jin ids by auto
    have uniq_all: "\<forall>y\<in>set (map snd (jobs st)). ?P y \<longrightarrow> y = j"
    proof (intro ballI impI)
      fix y assume "y \<in> set (map snd (jobs st))" "job_id y = jid"
      then obtain k where "(k, y) \<in> set (jobs st)" by auto
      moreover from this ids have "job_id y = k" by auto
      ultimately have "(jid, y) \<in> set (jobs st)" using \<open>job_id y = jid\<close> by simp
      then show "y = j" using d jin by (meson eq_key_imp_eq_value)
    qed
    then have uniq: "\<forall>y\<in>set ?qs. ?P y \<longrightarrow> y = j"
      unfolding get_jobs_by_status_def by (metis filter_is_subset subsetD)
    have pos: "first_position ?P 1 (sort_key created_at ?qs)
         = Some (1 + length (filter (\<lambda>y. created_at y < created_at j) ?qs)
                   + length (filter (\<lambda>y. created_at y = created_at j) (takeWhile (\<lambda>y. \<not> ?P y) ?qs)))"
      by (rule position_in_stable_sort [OF jq Pj uniq])
    have tw: "takeWhile (\<lambda>y. \<not> ?P y) ?qs
          = filter (\<lambda>j'. status j' = Queued) (map snd (takeWhile (\<lambda>(k, _). k \<noteq> jid) (jobs st)))"
    proof -
      have "takeWhile (\<lambda>y. \<not> ?P y) ?qs
            = filter (\<lambda>j'. status j' = Queued) (takeWhile (\<lambda>y. \<not> ?P y) (map snd (jobs st)))"
        unfolding get_jobs_by_status_def using uniq_all True
        by (intro takeWhile_filter_swap) auto
      moreover have "takeWhile (\<lambda>y. \<not> ?P y) (map snd (jobs st))
            = map snd (takeWhile (\<lambda>(k, _). k \<noteq> jid) (jobs st))"
        unfolding takeWhile_map using ids
        by (intro arg_cong [where f = "map snd"] takeWhile_cong) auto
      ultimately show ?thesis by simp
    qed
    have a: "filter (\<lambda>y. created_at y = created_at j) (takeWhile (\<lambda>y. \<not> ?P y) ?qs)
          = filter (\<lambda>j'. status j' = Queued \<and> created_at j' = created_at j)
              (map snd (takeWhile (\<lambda>(k, _). k \<noteq> jid) (jobs st)))"
      unfolding tw by simp
    have b: "filter (\<lambda>y. created_at y < created_at j) ?qs
          = filter (\<lambda>j'. status j' = Queued \<and> created_at j' < created_at j) (map snd (jobs st))"
      unfolding get_jobs_by_status_def by simp
    have "get_queue_position st jid = first_position ?P 1 (sort_key created_at ?qs)"
      using Some True by (simp add: get_queue_position_def)
    also note pos
    finally have "get_queue_position st jid
        = Some (1
            + length (filter (\<lambda>j'. status j' = Queued \<and> created_at j' < created_at j)
                        (map snd (jobs st)))
            + length (filter (\<lambda>j'. status j' = Queued \<and> created_at j' = created_at j)
                        (map snd (takeWhile (\<lambda>(k, _). k \<noteq> jid) (jobs st)))))"
      unfolding a b .
    then show ?thesis using Some True by simp
  qed
qed

theorem get_queue_position_rank_witness:
  "get_queue_position tie_state ''a'' = Some 2 \<and> get_queue_position tie_state ''b'' = Some 1"
proof -
  have d: "distinct (map fst (jobs tie_state))" by code_simp
  have i: "\<forall>(k, j)\<in>set (jobs tie_state). job_id j = k" by code_simp
  have a: "(case get_job tie_state ''a'' of
        None \<Rightarrow> None
      | Some j \<Rightarrow>
          if status j \<noteq> Queued then None
          else Some (1
            + length (filter (\<lambda>j'. status j' = Queued \<and> created_at j' < created_at j)
                        (map snd (jobs tie_state)))
            + length (filter (\<lambda>j'. status j' = Queued \<and> created_at j' = created_at j)
                        (map snd (takeWhile (\<lambda>(k, _). k \<noteq> ''a'') (jobs tie_state)))))) = Some 2"
    by code_simp
  have b: "(case get_job tie_state ''b'' of
        None \<Rightarrow> None
      | Some j \<Rightarrow>
          if status j \<noteq> Queued then None
          else Some (1
            + length (filter (\<lambda>j'. status j' = Queued \<and> created_at j' < created_at j)
                        (map snd (jobs tie_state)))
            + length (filter (\<lambda>j'. status j' = Queued \<and> created_at j' = created_at j)
                        (map snd (takeWhile (\<lambda>(k, _). k \<noteq> ''b'') (jobs tie_state)))))) = Some 1"
    by code_simp
  show ?thesis
    using get_queue_position_rank [OF d i, of "''a''"] get_queue_position_rank [OF d i, of "''b''"]
    unfolding a b by simp
qed

text \<open>
  C8, as stated: the cleanup is to return the number of jobs removed and never to raise.
  The history cutoff, 7 times \<open>max_age_hours\<close> before now, is computed as a date; for
  3000000 hours it falls before the year 1 and the call raises \<^verbatim>\<open>OverflowError\<close>, the
  first time and the second.
\<close>

theorem cleanup_old_jobs_overflow_counterexample:
  "snd (cleanup_old_jobs (200 * hour) aged_state 3000000) = Inl OverflowError
   \<and> snd (cleanup_old_jobs (200 * hour)
           (fst (cleanup_old_jobs (200 * hour) aged_state 3000000)) 3000000) = Inl OverflowError"
  by code_simp

text \<open>
  C8, amended: when now and the instant \<open>7 * m\<close> hours before now are dates of the years
  1 to 9999 (in microseconds from the epoch), \<^verbatim>\<open>cleanup_old_jobs\<close> removes the jobs
  created more than \<open>m\<close> hours before now and no others, keeps the history entries
  completed (or, without a completion time, created) less than \<open>7 * m\<close> hours before now
  and no others, and returns the number of jobs removed; run again at the same instant it
  returns 0, does not raise and leaves the state as it is. The store is a dictionary, so
  its keys are distinct.
\<close>

theorem cleanup_old_jobs_exact_and_idempotent:
  assumes "distinct (map fst (jobs st))"
    and "- 62135596800000000 \<le> now" and "now \<le> 253402300799999999"
    and "- 62135596800000000 \<le> now - m * 7 * 3600000000"
    and "now - m * 7 * 3600000000 \<le> 253402300799999999"
  shows "jobs (fst (cleanup_old_jobs now st m))
         = filter (\<lambda>(k, j). now - created_at j \<le> m * 3600000000) (jobs st)
       \<and> job_history (fst (cleanup_old_jobs now st m))
         = filter (\<lambda>h. now - m * 7 * 3600000000
                          < (case h_completed_at h of None \<Rightarrow> created_at (h_job h) | Some t \<Rightarrow> t))
             (job_history st)
       \<and> snd (cleanup_old_jobs now st m)
         = Inr (length (filter (\<lambda>(k, j). m * 3600000000 < now - created_at j) (jobs st)))
       \<and> cleanup_old_jobs now (fst (cleanup_old_jobs now st m)) m
         = (fst (cleanup_old_jobs now st m), Inr 0)"
proof -
  have r: "datetime_min \<le> now" "now \<le> datetime_max"
    "datetime_min \<le> now - m * 7 * hour" "now - m * 7 * hour \<le> datetime_max"
    using assms(2-5) by (simp_all add: datetime_min_def datetime_max_def hour_def)
  note c = history_cutoff_in_range [OF r]
  note f = cleanup_old_jobs_fields [OF assms(1) c]
  have "cleanup_old_jobs now (fst (cleanup_old_jobs now st m)) m
         = (fst (cleanup_old_jobs now st m), Inr 0)"
    by (rule cleanup_nothing_old) (auto simp: f c filter_empty_conv)
  then show ?thesis
    using f by (simp add: too_old_def history_time_def hour_def not_less)
qed

theorem cleanup_old_jobs_exact_and_idempotent_witness:
  "map fst (jobs (fst (cleanup_old_jobs (200 * hour) aged_state 24))) = [''new'']
   \<and> map h_completed_at (job_history (fst (cleanup_old_jobs (200 * hour) aged_state 24)))
     = [Some (100 * hour)]
   \<and> snd (cleanup_old_jobs (200 * hour) aged_state 24) = Inr 1
   \<and> cleanup_old_jobs (200 * hour) (fst (cleanup_old_jobs (200 * hour) aged_state 24)) 24
     = (fst (cleanup_old_jobs (200 * hour) aged_state 24), Inr 0)"
proof -
  have d: "distinct (map fst (jobs aged_state))" by code_simp
  have r: "- 62135596800000000 \<le> 200 * hour" "200 * hour \<le> 253402300799999999"
    "- 62135596800000000 \<le> 200 * hour - 24 * 7 * 3600000000"
    "200 * hour - 24 * 7 * 3600000000 \<le> 253402300799999999"
    by (simp_all add: hour_def)
  have a: "map fst (filter (\<lambda>(k, j). 200 * hour - created_at j \<le> 24 * 3600000000) (jobs aged_state))
        = [''new'']"
    by code_simp
  have b: "map h_completed_at
        (filter (\<lambda>h. 200 * hour - 24 * 7 * 3600000000
                       < (case h_completed_at h of None \<Rightarrow> created_at (h_job h) | Some t \<Rightarrow> t))
           (job_history aged_state)) = [Some (100 * hour)]"
    by code_simp
  have c: "length (filter (\<lambda>(k, j). 24 * 3600000000 < 200 * hour - created_at j) (jobs aged_state))
        = 1"
    by code_simp
  show ?thesis
    using cleanup_old_jobs_exact_and_idempotent [OF d r] a b c by simp
qed






end
